theory Spec2Isabelle
  imports Main
begin

section \<open>The tabs widget of packages/tabs/src/index.tsx\<close>

text \<open>
  The development follows the source file component by component: the state that \<open>Tabs\<close>
  owns and the context it publishes, the keyboard handling of \<open>TabList\<close>, the update
  effect and attributes of \<open>Tab\<close>, and the attributes of \<open>TabPanel\<close>.  JavaScript numbers
  used as indices are integers here (\<open>int\<close>); \<open>undefined\<close> and \<open>null\<close> are \<open>None\<close>.
\<close>

subsection \<open>Tabs: props, state and context\<close>

text \<open>
  The props of \<open>Tabs\<close> that the selection logic reads.  \<open>index\<close> is the controlled index
  (\<open>None\<close> when the owner passes none), \<open>onChange\<close> records whether the owner supplied
  a change handler (the source calls it as \<open>onChange && onChange(index)\<close>).
\<close>

record tabs_props =
  index :: "int option"
  defaultIndex :: "int option"
  onChange :: bool
  readOnly :: bool

text \<open>
  The state one \<open>Tabs\<close> instance keeps between renders: the refs \<open>isControlled\<close>,
  \<open>userInteractedRef\<close> and \<open>selectedPanelRef\<close>, the \<open>useState\<close> cell \<open>selectedIndex\<close>,
  and two logs of what the instance did to the outside: the arguments of the calls of the
  owner's \<open>onChange\<close>, and the elements on which \<open>focus()\<close> was called, both in call order.
  \<open>selectedPanelRef\<close> is written by the ref of the \<open>TabPanel\<close> that is selected; the
  functions below only read it.
\<close>

record 'e tabs_state =
  isControlled :: bool
  userInteractedRef :: bool
  selectedPanelRef :: "'e option"
  selectedIndex :: int
  onChange_calls :: "int list"
  focus_calls :: "'e list"

text \<open>
  First render: \<open>useRef(controlledIndex != null)\<close>, \<open>useRef(false)\<close>, \<open>useRef(null)\<close>,
  \<open>useState(defaultIndex || 0)\<close>.
\<close>

definition Tabs_mount :: "tabs_props \<Rightarrow> 'e tabs_state" where
  "Tabs_mount props =
     \<lparr>isControlled = (index props \<noteq> None),
      userInteractedRef = False,
      selectedPanelRef = None,
      selectedIndex = (case defaultIndex props of None \<Rightarrow> 0 | Some d \<Rightarrow> d),
      onChange_calls = [],
      focus_calls = []\<rparr>"

text \<open>The \<open>selectedIndex\<close> of the context: the controlled index in controlled mode.\<close>

definition context_selectedIndex :: "tabs_props \<Rightarrow> 'e tabs_state \<Rightarrow> int option" where
  "context_selectedIndex props st =
     (if isControlled st then index props else Some (selectedIndex st))"

text \<open>The \<open>setSelectedIndex\<close> of the context: \<open>noop\<close> in controlled mode.\<close>

definition context_setSelectedIndex :: "'e tabs_state \<Rightarrow> int \<Rightarrow> 'e tabs_state" where
  "context_setSelectedIndex st i =
     (if isControlled st then st else st\<lparr>selectedIndex := i\<rparr>)"

text \<open>\<open>onFocusPanel\<close>: \<open>selectedPanelRef.current?.focus()\<close>.\<close>

definition onFocusPanel :: "'e tabs_state \<Rightarrow> 'e tabs_state" where
  "onFocusPanel st =
     (case selectedPanelRef st of
        None \<Rightarrow> st
      | Some panel \<Rightarrow> st\<lparr>focus_calls := focus_calls st @ [panel]\<rparr>)"

text \<open>\<open>onSelectTab\<close>: \<open>noop\<close> when \<open>readOnly\<close>, otherwise the three statements of the source.\<close>

definition onSelectTab :: "tabs_props \<Rightarrow> 'e tabs_state \<Rightarrow> int \<Rightarrow> 'e tabs_state" where
  "onSelectTab props st i =
     (if readOnly props then st
      else
        let st1 = st\<lparr>userInteractedRef := True\<rparr>;
            st2 = (if onChange props
                   then st1\<lparr>onChange_calls := onChange_calls st1 @ [i]\<rparr> else st1)
        in if \<not> isControlled st2 then st2\<lparr>selectedIndex := i\<rparr> else st2)"

subsection \<open>The registry of tabs\<close>

text \<open>
  One entry of the \<open>descendants\<close> array of the tabs registry: the DOM element of a tab
  and the \<open>disabled\<close> prop it registered with.  Elements are opaque; the code only
  compares them with \<open>===\<close>.
\<close>

record 'e descendant =
  element :: 'e
  disabled :: bool

datatype error = TypeError

text \<open>
  Reading a JavaScript array: \<open>xs[i]\<close> is \<open>undefined\<close> (here \<open>None\<close>) when \<open>i\<close> is
  not an index of \<open>xs\<close>, and \<open>xs[undefined]\<close> is \<open>undefined\<close> as well.
\<close>

definition js_nth :: "'a list \<Rightarrow> int \<Rightarrow> 'a option" where
  "js_nth xs i = (if 0 \<le> i \<and> i < int (length xs) then Some (xs ! nat i) else None)"

definition js_index :: "'a list \<Rightarrow> int option \<Rightarrow> 'a option" where
  "js_index xs sel = (case sel of None \<Rightarrow> None | Some i \<Rightarrow> js_nth xs i)"

text \<open>
  Modelled from the spec: \<open>focusNodes\<close>, which \<open>useDescendantContext\<close> of
  \<open>@reach/utils\<close> provides next to \<open>descendants\<close> and whose code is not part of the
  source file.  The spec describes it as the list of the non-disabled tabs in order; the
  entries are the elements, since the source compares them with \<open>descendants[n].element\<close>.
\<close>

definition focusNodes :: "'e descendant list \<Rightarrow> 'e list" where
  "focusNodes ds = map element (filter (\<lambda>d. \<not> disabled d) ds)"

text \<open>
  \<open>Array.prototype.findIndex\<close>: the index of the first entry the callback accepts,
  \<open>-1\<close> when there is none.  The callback is called on the entries in order, so an
  exception it throws leaves \<open>findIndex\<close>, and it is not called at all on an empty array.
\<close>

fun findIndex_from :: "('a \<Rightarrow> error + bool) \<Rightarrow> 'a list \<Rightarrow> int \<Rightarrow> error + int" where
  "findIndex_from p [] n = Inr (- 1)"
| "findIndex_from p (x # xs) n =
     (case p x of
        Inl e \<Rightarrow> Inl e
      | Inr b \<Rightarrow> if b then Inr n else findIndex_from p xs (n + 1))"

definition findIndex :: "('a \<Rightarrow> error + bool) \<Rightarrow> 'a list \<Rightarrow> error + int" where
  "findIndex p xs = findIndex_from p xs 0"

subsection \<open>TabList: getFocusIndices and handleKeyDown\<close>

text \<open>
  The callback \<open>element => element === descendants[selectedIndex].element\<close>: reading
  \<open>.element\<close> of \<open>undefined\<close> throws a \<open>TypeError\<close>.
\<close>

definition is_selected_element ::
  "'e descendant list \<Rightarrow> int option \<Rightarrow> 'e \<Rightarrow> error + bool" where
  "is_selected_element ds sel el =
     (case js_index ds sel of
        None \<Rightarrow> Inl TypeError
      | Some d \<Rightarrow> Inr (el = element d))"

record focus_indices =
  firstIndex :: int
  lastIndex :: int
  prevIndex :: int
  nextIndex :: int

text \<open>
  The \<open>for\<close> loop of \<open>getFocusIndices\<close>, started at \<open>n\<close> with the current values of
  \<open>first\<close>, \<open>last\<close>, \<open>prev\<close> and \<open>next\<close> in \<open>acc\<close>.  \<open>fn\<close> is \<open>focusNodes\<close> and \<open>sfi\<close> is
  \<open>selectedFocusIndex\<close>.  An element is never \<open>undefined\<close>, so the comparison with an
  out-of-range read of \<open>focusNodes\<close> is false.
\<close>

function focus_loop ::
  "'e descendant list \<Rightarrow> 'e list \<Rightarrow> int \<Rightarrow> nat \<Rightarrow> focus_indices \<Rightarrow> focus_indices" where
  "focus_loop ds fn sfi n acc =
     (if n < length ds then
        focus_loop ds fn sfi (Suc n)
          (acc\<lparr>firstIndex :=
                 if Some (element (ds ! n)) = js_nth fn 0 then int n else firstIndex acc,
               lastIndex :=
                 if Some (element (ds ! n)) = js_nth fn (int (length fn) - 1)
                 then int n else lastIndex acc,
               prevIndex :=
                 if Some (element (ds ! n)) = js_nth fn (sfi - 1) then int n else prevIndex acc,
               nextIndex :=
                 if Some (element (ds ! n)) = js_nth fn (sfi + 1) then int n else nextIndex acc\<rparr>)
      else acc)"
  by pat_completeness auto
termination
  by (relation "measure (\<lambda>(ds, fn, sfi, n, acc). length ds - n)") auto

declare focus_loop.simps [simp del]

definition getFocusIndices :: "'e descendant list \<Rightarrow> int option \<Rightarrow> error + focus_indices" where
  "getFocusIndices ds sel =
     (case findIndex (is_selected_element ds sel) (focusNodes ds) of
        Inl e \<Rightarrow> Inl e
      | Inr sfi \<Rightarrow>
          let r = focus_loop ds (focusNodes ds) sfi 0
                    \<lparr>firstIndex = - 1, lastIndex = - 1, prevIndex = - 1, nextIndex = - 1\<rparr>
          in Inr \<lparr>firstIndex = firstIndex r,
                  lastIndex = lastIndex r,
                  prevIndex = (if prevIndex r = - 1 then lastIndex r else prevIndex r),
                  nextIndex = (if nextIndex r = - 1 then firstIndex r else nextIndex r)\<rparr>)"

text \<open>
  What \<open>handleKeyDown\<close> does to its surroundings, in order: a call \<open>onSelectTab(i)\<close>,
  \<open>event.preventDefault()\<close>, a call \<open>onFocusPanel()\<close>.
\<close>

datatype action = SelectTab int | PreventDefault | FocusPanel

definition is_navigation_key :: "string \<Rightarrow> bool" where
  "is_navigation_key key =
     (key = ''ArrowLeft'' \<or> key = ''ArrowRight'' \<or> key = ''ArrowDown'' \<or>
      key = ''Home'' \<or> key = ''End'')"

text \<open>
  \<open>handleKeyDown\<close>: the key of the event, the registry and the context's \<open>selectedIndex\<close>
  decide the calls made.  \<open>getFocusIndices()\<close> runs before the \<open>switch\<close>, for every
  navigation key.
\<close>

definition handleKeyDown ::
  "'e descendant list \<Rightarrow> int option \<Rightarrow> string \<Rightarrow> error + action list" where
  "handleKeyDown ds sel key =
     (if \<not> is_navigation_key key then Inr []
      else
        case getFocusIndices ds sel of
          Inl e \<Rightarrow> Inl e
        | Inr fi \<Rightarrow>
            Inr (if key = ''ArrowRight'' then [SelectTab (nextIndex fi)]
                 else if key = ''ArrowLeft'' then [SelectTab (prevIndex fi)]
                 else if key = ''ArrowDown'' then [PreventDefault, FocusPanel]
                 else if key = ''Home'' then [SelectTab (firstIndex fi)]
                 else if key = ''End'' then [SelectTab (lastIndex fi)]
                 else []))"

text \<open>The calls of \<open>handleKeyDown\<close> carried out on the state of the instance.\<close>

fun perform :: "tabs_props \<Rightarrow> 'e tabs_state \<Rightarrow> action \<Rightarrow> 'e tabs_state" where
  "perform props st (SelectTab i) = onSelectTab props st i"
| "perform props st PreventDefault = st"
| "perform props st FocusPanel = onFocusPanel st"

text \<open>
  A key press on the tab list: the state after the handler has run.  An exception leaves
  the handler before any of its calls, so the state is as before.
\<close>

definition TabList_keyDown ::
  "tabs_props \<Rightarrow> 'e descendant list \<Rightarrow> string \<Rightarrow> 'e tabs_state \<Rightarrow> 'e tabs_state" where
  "TabList_keyDown props ds key st =
     (case handleKeyDown ds (context_selectedIndex props st) key of
        Inl e \<Rightarrow> st
      | Inr acts \<Rightarrow> foldl (perform props) st acts)"

text \<open>
  The layout effect of \<open>TabList\<close>: an uncontrolled instance whose selected tab is
  disabled selects \<open>getFocusIndices().next\<close>.
\<close>

definition TabList_layoutEffect ::
  "tabs_props \<Rightarrow> 'e descendant list \<Rightarrow> 'e tabs_state \<Rightarrow> error + 'e tabs_state" where
  "TabList_layoutEffect props ds st =
     (if \<not> isControlled st \<and>
         (case js_index ds (context_selectedIndex props st) of
            None \<Rightarrow> False
          | Some d \<Rightarrow> disabled d)
      then
        case getFocusIndices ds (context_selectedIndex props st) of
          Inl e \<Rightarrow> Inl e
        | Inr fi \<Rightarrow> Inr (context_setSelectedIndex st (nextIndex fi))
      else Inr st)"

subsection \<open>Tab: click and update effect\<close>

text \<open>The click handler \<open>onSelect\<close> of the tab with index \<open>i\<close>.\<close>

definition Tab_onSelect :: "tabs_props \<Rightarrow> int \<Rightarrow> 'e tabs_state \<Rightarrow> 'e tabs_state" where
  "Tab_onSelect props i st = onSelectTab props st i"

text \<open>
  The body of the effect that \<open>Tab\<close> passes to \<open>useUpdateEffect\<close>, for the tab with
  index \<open>i\<close> and element ref \<open>ownRef\<close>, under the context's \<open>selectedIndex\<close>.
\<close>

definition Tab_effect :: "int \<Rightarrow> 'e option \<Rightarrow> int option \<Rightarrow> 'e tabs_state \<Rightarrow> 'e tabs_state" where
  "Tab_effect i ownRef sel st =
     (case ownRef of
        None \<Rightarrow> st
      | Some el \<Rightarrow>
          if Some i = sel \<and> userInteractedRef st
          then st\<lparr>userInteractedRef := False, focus_calls := focus_calls st @ [el]\<rparr>
          else st)"

text \<open>
  \<open>useUpdateEffect(effect, [isSelected])\<close> on a re-render: the effect runs when
  \<open>isSelected\<close> differs from its value at the previous render (\<open>prev_sel\<close> is the
  context's \<open>selectedIndex\<close> of that render), and never on the first render.
\<close>

definition Tab_updateEffect ::
  "int \<Rightarrow> 'e option \<Rightarrow> int option \<Rightarrow> int option \<Rightarrow> 'e tabs_state \<Rightarrow> 'e tabs_state" where
  "Tab_updateEffect i ownRef prev_sel sel st =
     (if (Some i = prev_sel) = (Some i = sel) then st else Tab_effect i ownRef sel st)"

text \<open>
  The update effects of all registered tabs after a re-render, in document order.  The tab
  registered at position \<open>n\<close> has index \<open>n\<close> and its own element as \<open>ownRef.current\<close>.
\<close>

fun Tabs_updateEffects_from ::
  "nat \<Rightarrow> 'e descendant list \<Rightarrow> int option \<Rightarrow> int option \<Rightarrow> 'e tabs_state \<Rightarrow> 'e tabs_state" where
  "Tabs_updateEffects_from n [] prev_sel sel st = st"
| "Tabs_updateEffects_from n (d # ds) prev_sel sel st =
     Tabs_updateEffects_from (Suc n) ds prev_sel sel
       (Tab_updateEffect (int n) (Some (element d)) prev_sel sel st)"

definition Tabs_updateEffects ::
  "'e descendant list \<Rightarrow> int option \<Rightarrow> int option \<Rightarrow> 'e tabs_state \<Rightarrow> 'e tabs_state" where
  "Tabs_updateEffects ds prev_sel sel st = Tabs_updateEffects_from 0 ds prev_sel sel st"

subsection \<open>Tab and TabPanel: ids and attributes\<close>

text \<open>JavaScript's conversion of an integer to a string, as \<open>join\<close> applies it.\<close>

definition digit_char :: "nat \<Rightarrow> char" where
  "digit_char d = ''0123456789'' ! d"

fun string_of_nat :: "nat \<Rightarrow> string" where
  "string_of_nat n =
     (if 10 \<le> n then string_of_nat (n div 10) @ [digit_char (n mod 10)] else [digit_char n])"

declare string_of_nat.simps [simp del]

definition string_of_int :: "int \<Rightarrow> string" where
  "string_of_int i =
     (if 0 \<le> i then string_of_nat (nat i) else CHR ''-'' # string_of_nat (nat (- i)))"

text \<open>
  Modelled from the spec: \<open>makeId\<close> of \<open>@reach/utils\<close>, whose code is not part of the
  source file.  The spec gives its results as \<open>{groupId}-tab-{index}\<close> and
  \<open>{groupId}-panel-{index}\<close>: the arguments joined by a hyphen.
\<close>

definition makeId :: "string \<Rightarrow> string \<Rightarrow> int \<Rightarrow> string" where
  "makeId tabsId kind i = tabsId @ ''-'' @ kind @ ''-'' @ string_of_int i"

text \<open>The attributes \<open>Tab\<close> renders that depend on its index and the selection.\<close>

record tab_attributes =
  tab_aria_controls :: string
  tab_aria_selected :: bool
  tab_id :: string
  tab_tabIndex :: int

definition Tab_attributes :: "string \<Rightarrow> int \<Rightarrow> int option \<Rightarrow> tab_attributes" where
  "Tab_attributes tabsId i sel =
     \<lparr>tab_aria_controls = makeId tabsId ''panel'' i,
      tab_aria_selected = (Some i = sel),
      tab_id = makeId tabsId ''tab'' i,
      tab_tabIndex = (if Some i = sel then 0 else - 1)\<rparr>"

text \<open>The attributes \<open>TabPanel\<close> renders.\<close>

record panel_attributes =
  panel_aria_labelledby :: string
  panel_hidden :: bool
  panel_id :: string
  panel_tabIndex :: int

definition TabPanel_attributes :: "string \<Rightarrow> int \<Rightarrow> int option \<Rightarrow> panel_attributes" where
  "TabPanel_attributes tabsId i sel =
     \<lparr>panel_aria_labelledby = makeId tabsId ''tab'' i,
      panel_hidden = (\<not> (Some i = sel)),
      panel_id = makeId tabsId ''panel'' i,
      panel_tabIndex = - 1\<rparr>"

subsection \<open>The navigation targets as the specification words them\<close>

text \<open>
  The raw indices of the enabled tabs, in order, and the targets over them: the first and
  the last one, the one right after and right before the current raw index, the latter two
  wrapping around.  With no enabled tab there is no target.
\<close>

definition enabled_indices :: "'e descendant list \<Rightarrow> nat list" where
  "enabled_indices ds = filter (\<lambda>n. \<not> disabled (ds ! n)) [0..<length ds]"

definition first_enabled :: "'e descendant list \<Rightarrow> nat option" where
  "first_enabled ds = (case enabled_indices ds of [] \<Rightarrow> None | n # _ \<Rightarrow> Some n)"

definition last_enabled :: "'e descendant list \<Rightarrow> nat option" where
  "last_enabled ds = (case rev (enabled_indices ds) of [] \<Rightarrow> None | n # _ \<Rightarrow> Some n)"

definition next_enabled :: "'e descendant list \<Rightarrow> nat \<Rightarrow> nat option" where
  "next_enabled ds cur =
     (case filter (\<lambda>n. cur < n) (enabled_indices ds) of
        [] \<Rightarrow> first_enabled ds
      | n # _ \<Rightarrow> Some n)"

definition prev_enabled :: "'e descendant list \<Rightarrow> nat \<Rightarrow> nat option" where
  "prev_enabled ds cur =
     (case rev (filter (\<lambda>n. n < cur) (enabled_indices ds)) of
        [] \<Rightarrow> last_enabled ds
      | n # _ \<Rightarrow> Some n)"

text \<open>
  The value a variable of the loop ends with when its target is the element of the tab
  with raw index \<open>m\<close>, or when it has no target: \<open>-1\<close> is the code's "none".
\<close>

definition target_index :: "nat option \<Rightarrow> int" where
  "target_index t = (case t of None \<Rightarrow> - 1 | Some m \<Rightarrow> int m)"

text \<open>
  One variable of the loop of \<open>getFocusIndices\<close> on its own: the last \<open>n\<close> from the start
  position on whose element is the target \<open>t\<close>, the previous value when there is none.
\<close>

function scan_target :: "'e option \<Rightarrow> 'e descendant list \<Rightarrow> nat \<Rightarrow> int \<Rightarrow> int" where
  "scan_target t ds n v =
     (if n < length ds
      then scan_target t ds (Suc n) (if Some (element (ds ! n)) = t then int n else v)
      else v)"
  by pat_completeness auto
termination
  by (relation "measure (\<lambda>(t, ds, n, v). length ds - n)") auto

declare scan_target.simps [simp del]

section \<open>Properties\<close>

subsection \<open>Select requests\<close>

lemma onSelectTab_readOnly: "readOnly props \<Longrightarrow> onSelectTab props st i = st"
  by (simp add: onSelectTab_def)

lemma perform_readOnly_selection:
  "readOnly props \<Longrightarrow>
   selectedIndex (perform props st a) = selectedIndex st \<and>
   onChange_calls (perform props st a) = onChange_calls st \<and>
   userInteractedRef (perform props st a) = userInteractedRef st \<and>
   isControlled (perform props st a) = isControlled st"
  by (cases a) (simp_all add: onSelectTab_def onFocusPanel_def split: option.splits)

lemma foldl_perform_readOnly_selection:
  "readOnly props \<Longrightarrow>
   selectedIndex (foldl (perform props) st acts) = selectedIndex st \<and>
   onChange_calls (foldl (perform props) st acts) = onChange_calls st \<and>
   userInteractedRef (foldl (perform props) st acts) = userInteractedRef st \<and>
   isControlled (foldl (perform props) st acts) = isControlled st"
  by (induction acts arbitrary: st) (simp_all add: perform_readOnly_selection)

subsection \<open>The loop of getFocusIndices\<close>

lemma focus_loop_scan:
  "focus_loop ds fn sfi n acc =
     \<lparr>firstIndex = scan_target (js_nth fn 0) ds n (firstIndex acc),
      lastIndex = scan_target (js_nth fn (int (length fn) - 1)) ds n (lastIndex acc),
      prevIndex = scan_target (js_nth fn (sfi - 1)) ds n (prevIndex acc),
      nextIndex = scan_target (js_nth fn (sfi + 1)) ds n (nextIndex acc)\<rparr>"
proof (induction ds fn sfi n acc rule: focus_loop.induct)
  case (1 ds fn sfi n acc)
  show ?case
  proof (cases "n < length ds")
    case True
    then show ?thesis
      using "1.IH" [OF True]
      by (subst focus_loop.simps, subst (1 2 3 4) scan_target.simps) simp
  next
    case False
    then show ?thesis
      by (subst focus_loop.simps, subst (1 2 3 4) scan_target.simps) simp
  qed
qed

lemma scan_target_miss:
  "(\<And>k. n \<le> k \<Longrightarrow> k < length ds \<Longrightarrow> Some (element (ds ! k)) \<noteq> t) \<Longrightarrow>
   scan_target t ds n v = v"
proof (induction t ds n v rule: scan_target.induct)
  case (1 t ds n v)
  show ?case
  proof (cases "n < length ds")
    case True
    have "Some (element (ds ! n)) \<noteq> t" using "1.prems" [of n] True by simp
    moreover have "scan_target t ds (Suc n) v = v"
      using "1.IH" [OF True] "1.prems" \<open>Some (element (ds ! n)) \<noteq> t\<close> by simp
    ultimately show ?thesis using True by (subst scan_target.simps) simp
  next
    case False
    then show ?thesis by (subst scan_target.simps) simp
  qed
qed

lemma scan_target_hit:
  "distinct (map element ds) \<Longrightarrow> n \<le> m \<Longrightarrow> m < length ds \<Longrightarrow>
   scan_target (Some (element (ds ! m))) ds n v = int m"
proof (induction "Some (element (ds ! m))" ds n v rule: scan_target.induct)
  case (1 ds n v)
  have n: "n < length ds" using "1.prems" by simp
  show ?case
  proof (cases "n = m")
    case True
    have "scan_target (Some (element (ds ! m))) ds (Suc m) (int m) = int m"
    proof (rule scan_target_miss)
      fix k assume "Suc m \<le> k" "k < length ds"
      then have "element (ds ! k) \<noteq> element (ds ! m)"
        using "1.prems"(1,3) by (auto simp: distinct_conv_nth)
      then show "Some (element (ds ! k)) \<noteq> Some (element (ds ! m))" by simp
    qed
    then show ?thesis using True n by (subst scan_target.simps) simp
  next
    case False
    then have "Suc n \<le> m" using "1.prems" by simp
    then show ?thesis
      using "1.hyps" [OF n] "1.prems" n by (subst scan_target.simps) simp
  qed
qed

subsection \<open>The registry and the focus targets\<close>

lemma js_nth_map: "js_nth (map f xs) k = map_option f (js_nth xs k)"
  by (auto simp: js_nth_def)

lemma js_nth_mem: "js_nth xs k = Some x \<Longrightarrow> x \<in> set xs"
  by (auto simp: js_nth_def split: if_splits)

lemma focusNodes_enabled_indices:
  "focusNodes ds = map (\<lambda>n. element (ds ! n)) (enabled_indices ds)"
proof -
  let ?P = "\<lambda>d. \<not> disabled d"
  have "filter ?P ds = filter ?P (map (nth ds) [0..<length ds])"
    by (simp add: map_nth)
  also have "\<dots> = map (nth ds) (filter (?P \<circ> nth ds) [0..<length ds])"
    by (simp only: filter_map)
  finally show ?thesis
    by (simp add: focusNodes_def enabled_indices_def comp_def)
qed

lemma enabled_indices_bound: "n \<in> set (enabled_indices ds) \<Longrightarrow> n < length ds"
  by (simp add: enabled_indices_def)

lemma enabled_indices_mem:
  "n \<in> set (enabled_indices ds) \<longleftrightarrow> n < length ds \<and> \<not> disabled (ds ! n)"
  by (auto simp: enabled_indices_def)

lemma enabled_indices_sorted: "sorted_wrt (<) (enabled_indices ds)"
  by (simp add: enabled_indices_def sorted_wrt_filter)

lemma scan_target_enabled:
  assumes "distinct (map element ds)"
  shows "scan_target (js_nth (focusNodes ds) k) ds 0 (- 1) =
         target_index (js_nth (enabled_indices ds) k)"
proof (cases "js_nth (enabled_indices ds) k")
  case None
  then have "js_nth (focusNodes ds) k = None"
    by (simp add: focusNodes_enabled_indices js_nth_map)
  then show ?thesis
    using None by (simp add: scan_target_miss target_index_def)
next
  case (Some m)
  then have "m < length ds"
    using js_nth_mem enabled_indices_bound by fastforce
  moreover have "js_nth (focusNodes ds) k = Some (element (ds ! m))"
    using Some by (simp add: focusNodes_enabled_indices js_nth_map)
  ultimately show ?thesis
    using Some assms by (simp add: scan_target_hit target_index_def)
qed

lemma getFocusIndices_targets:
  assumes "distinct (map element ds)"
    and "findIndex (is_selected_element ds sel) (focusNodes ds) = Inr sfi"
  shows "getFocusIndices ds sel =
     Inr \<lparr>firstIndex = target_index (js_nth (enabled_indices ds) 0),
          lastIndex = target_index (js_nth (enabled_indices ds) (int (length (enabled_indices ds)) - 1)),
          prevIndex =
            (if target_index (js_nth (enabled_indices ds) (sfi - 1)) = - 1
             then target_index (js_nth (enabled_indices ds) (int (length (enabled_indices ds)) - 1))
             else target_index (js_nth (enabled_indices ds) (sfi - 1))),
          nextIndex =
            (if target_index (js_nth (enabled_indices ds) (sfi + 1)) = - 1
             then target_index (js_nth (enabled_indices ds) 0)
             else target_index (js_nth (enabled_indices ds) (sfi + 1)))\<rparr>"
proof -
  have len: "length (focusNodes ds) = length (enabled_indices ds)"
    by (simp add: focusNodes_enabled_indices)
  show ?thesis
    unfolding getFocusIndices_def assms(2)
    by (simp add: focus_loop_scan scan_target_enabled [OF assms(1)] len Let_def)
qed

lemma is_selected_element_registered:
  "cur < length ds \<Longrightarrow>
   is_selected_element ds (Some (int cur)) el = Inr (el = element (ds ! cur))"
  by (simp add: is_selected_element_def js_index_def js_nth_def)

lemma findIndex_from_hit:
  "x \<notin> set ys \<Longrightarrow> (\<And>el. p el = Inr (el = x)) \<Longrightarrow>
   findIndex_from p (ys @ x # zs) n = Inr (n + int (length ys))"
  by (induction ys arbitrary: n) auto

lemma findIndex_from_miss:
  "x \<notin> set xs \<Longrightarrow> (\<And>el. p el = Inr (el = x)) \<Longrightarrow> findIndex_from p xs n = Inr (- 1)"
  by (induction xs arbitrary: n) auto

lemma strict_sorted_split:
  "sorted_wrt (<) (xs :: nat list) \<Longrightarrow> x \<in> set xs \<Longrightarrow>
   xs = filter (\<lambda>n. n < x) xs @ x # filter (\<lambda>n. x < n) xs"
proof (induction xs)
  case Nil
  then show ?case by simp
next
  case (Cons y ys)
  show ?case
  proof (cases "x = y")
    case True
    have "filter (\<lambda>n. n < y) ys = []" "filter (\<lambda>n. y < n) ys = ys"
      using Cons.prems(1) by (auto simp: filter_empty_conv filter_id_conv)
    then show ?thesis using True by simp
  next
    case False
    then have "x \<in> set ys" using Cons.prems(2) by simp
    moreover have "y < x" using Cons.prems(1) \<open>x \<in> set ys\<close> by auto
    ultimately show ?thesis using Cons by auto
  qed
qed

lemma js_nth_first: "js_nth xs 0 = (case xs of [] \<Rightarrow> None | x # _ \<Rightarrow> Some x)"
  by (cases xs) (simp_all add: js_nth_def)

lemma js_nth_last:
  "js_nth xs (int (length xs) - 1) = (case rev xs of [] \<Rightarrow> None | x # _ \<Rightarrow> Some x)"
proof (cases xs rule: rev_cases)
  case Nil
  then show ?thesis by (simp add: js_nth_def)
next
  case (snoc ys y)
  then show ?thesis by (simp add: js_nth_def nat_diff_distrib')
qed

lemma js_nth_after:
  "js_nth (a @ c # b) (int (length a) + 1) = (case b of [] \<Rightarrow> None | x # _ \<Rightarrow> Some x)"
proof -
  have "nat (int (length a) + 1) = Suc (length a)" by simp
  then show ?thesis
    by (cases b) (simp_all add: js_nth_def nth_append)
qed

lemma js_nth_before:
  "js_nth (a @ c # b) (int (length a) - 1) = (case rev a of [] \<Rightarrow> None | x # _ \<Rightarrow> Some x)"
proof (cases a rule: rev_cases)
  case Nil
  then show ?thesis by (simp add: js_nth_def)
next
  case (snoc ys y)
  then show ?thesis by (simp add: js_nth_def nth_append)
qed

lemma target_index_none: "target_index t = - 1 \<longleftrightarrow> t = None"
  by (cases t) (simp_all add: target_index_def)

lemma first_enabled_js_nth: "first_enabled ds = js_nth (enabled_indices ds) 0"
  by (simp add: first_enabled_def js_nth_first)

lemma last_enabled_js_nth:
  "last_enabled ds = js_nth (enabled_indices ds) (int (length (enabled_indices ds)) - 1)"
  by (simp add: last_enabled_def js_nth_last)

text \<open>The selected tab is registered and enabled.\<close>

lemma getFocusIndices_enabled:
  assumes dist: "distinct (map element ds)"
    and cur: "cur < length ds" and en: "\<not> disabled (ds ! cur)"
  shows "getFocusIndices ds (Some (int cur)) =
     Inr \<lparr>firstIndex = target_index (first_enabled ds),
          lastIndex = target_index (last_enabled ds),
          prevIndex = target_index (prev_enabled ds cur),
          nextIndex = target_index (next_enabled ds cur)\<rparr>"
proof -
  let ?en = "enabled_indices ds"
  let ?a = "filter (\<lambda>n. n < cur) ?en" and ?b = "filter (\<lambda>n. cur < n) ?en"
  let ?f = "\<lambda>n. element (ds ! n)"
  have mem: "cur \<in> set ?en" using cur en by (simp add: enabled_indices_mem)
  have split: "?en = ?a @ cur # ?b"
    using strict_sorted_split [OF enabled_indices_sorted mem] .
  have fn: "focusNodes ds = map ?f ?a @ ?f cur # map ?f ?b"
    by (subst focusNodes_enabled_indices, subst split) simp
  have neq: "?f n \<noteq> ?f cur" if "n \<in> set ?a" for n
  proof -
    from that have "n < cur" by simp
    then show ?thesis
      using dist cur by (auto simp: distinct_conv_nth)
  qed
  have notin: "?f cur \<notin> set (map ?f ?a)"
  proof
    assume "?f cur \<in> set (map ?f ?a)"
    then obtain n where "n \<in> set ?a" and "?f n = ?f cur" by auto
    with neq show False by blast
  qed
  have sfi: "findIndex (is_selected_element ds (Some (int cur))) (focusNodes ds)
             = Inr (int (length ?a))"
    unfolding findIndex_def fn
    using findIndex_from_hit [OF notin, of "is_selected_element ds (Some (int cur))" "map ?f ?b" 0]
    by (simp add: is_selected_element_registered [OF cur])
  have nxt: "js_nth ?en (int (length ?a) + 1) = (case ?b of [] \<Rightarrow> None | x # _ \<Rightarrow> Some x)"
    by (subst split) (rule js_nth_after)
  have prv: "js_nth ?en (int (length ?a) - 1) = (case rev ?a of [] \<Rightarrow> None | x # _ \<Rightarrow> Some x)"
    by (subst split) (rule js_nth_before)
  have "(if target_index (js_nth ?en (int (length ?a) + 1)) = - 1
         then target_index (js_nth ?en 0)
         else target_index (js_nth ?en (int (length ?a) + 1)))
        = target_index (next_enabled ds cur)"
    unfolding nxt target_index_none
    by (simp add: next_enabled_def first_enabled_js_nth split: list.splits)
  moreover have "(if target_index (js_nth ?en (int (length ?a) - 1)) = - 1
         then target_index (js_nth ?en (int (length ?en) - 1))
         else target_index (js_nth ?en (int (length ?a) - 1)))
        = target_index (prev_enabled ds cur)"
    unfolding prv target_index_none
    by (simp add: prev_enabled_def last_enabled_js_nth split: list.splits)
  ultimately show ?thesis
    unfolding getFocusIndices_targets [OF dist sfi]
    by (simp add: first_enabled_js_nth last_enabled_js_nth)
qed

text \<open>The selected tab is registered and disabled: it is not among the focus nodes.\<close>

lemma getFocusIndices_disabled:
  assumes dist: "distinct (map element ds)"
    and cur: "cur < length ds" and dis: "disabled (ds ! cur)"
  shows "getFocusIndices ds (Some (int cur)) =
     Inr \<lparr>firstIndex = target_index (first_enabled ds),
          lastIndex = target_index (last_enabled ds),
          prevIndex = target_index (last_enabled ds),
          nextIndex = target_index (first_enabled ds)\<rparr>"
proof -
  let ?en = "enabled_indices ds"
  let ?f = "\<lambda>n. element (ds ! n)"
  have notin: "?f cur \<notin> set (focusNodes ds)"
  proof
    assume "?f cur \<in> set (focusNodes ds)"
    then obtain n where n: "n \<in> set ?en" and eq: "?f n = ?f cur"
      by (auto simp: focusNodes_enabled_indices)
    from n have "n < length ds" and "\<not> disabled (ds ! n)"
      by (simp_all add: enabled_indices_mem)
    with eq dist cur have "n = cur"
      by (auto simp: distinct_conv_nth)
    with \<open>\<not> disabled (ds ! n)\<close> dis show False by simp
  qed
  have sfi: "findIndex (is_selected_element ds (Some (int cur))) (focusNodes ds) = Inr (- 1)"
    unfolding findIndex_def
    by (rule findIndex_from_miss [OF notin]) (rule is_selected_element_registered [OF cur])
  have "js_nth ?en (- 1 - 1) = None" by (simp add: js_nth_def)
  then show ?thesis
    unfolding getFocusIndices_targets [OF dist sfi]
    by (simp add: first_enabled_js_nth last_enabled_js_nth target_index_def)
qed

text \<open>No tab is enabled: the callback of \<open>findIndex\<close> is never called.\<close>

lemma getFocusIndices_none_enabled:
  assumes "focusNodes ds = []"
  shows "getFocusIndices ds sel =
     Inr \<lparr>firstIndex = - 1, lastIndex = - 1, prevIndex = - 1, nextIndex = - 1\<rparr>"
proof -
  have "js_nth ([] :: 'a list) k = None" for k by (simp add: js_nth_def)
  then show ?thesis
    by (simp add: getFocusIndices_def assms findIndex_def focus_loop_scan scan_target_miss)
qed

lemma findIndex_from_total:
  "(\<And>el. \<exists>b. p el = Inr b) \<Longrightarrow> \<exists>k. findIndex_from p xs n = Inr k"
proof (induction xs arbitrary: n)
  case Nil
  then show ?case by simp
next
  case (Cons x xs)
  from Cons.prems obtain b where "p x = Inr b" by blast
  then show ?case using Cons.IH [OF Cons.prems] by simp
qed

text \<open>The selected index is the index of a registered tab: nothing is thrown.\<close>

lemma getFocusIndices_registered:
  assumes "js_index ds sel = Some d"
  shows "\<exists>fi. getFocusIndices ds sel = Inr fi"
proof -
  have "\<exists>b. is_selected_element ds sel el = Inr b" for el
    using assms by (simp add: is_selected_element_def)
  then obtain k where "findIndex (is_selected_element ds sel) (focusNodes ds) = Inr k"
    unfolding findIndex_def using findIndex_from_total by metis
  then show ?thesis by (simp add: getFocusIndices_def Let_def)
qed

text \<open>
  The selected index is no index of the registry and some tab is enabled: the first call
  of the callback throws.
\<close>

lemma getFocusIndices_stale:
  assumes "js_index ds sel = None" and "focusNodes ds \<noteq> []"
  shows "getFocusIndices ds sel = Inl TypeError"
proof -
  from assms(2) obtain x xs where "focusNodes ds = x # xs" by (cases "focusNodes ds") auto
  then show ?thesis
    using assms(1) by (simp add: getFocusIndices_def findIndex_def is_selected_element_def)
qed

subsection \<open>The update effects of the tabs\<close>

lemma Tab_updateEffect_not_interacted:
  "\<not> userInteractedRef st \<Longrightarrow> Tab_updateEffect i ownRef prev_sel sel st = st"
  by (simp add: Tab_updateEffect_def Tab_effect_def split: option.splits)

lemma Tabs_updateEffects_from_not_interacted:
  "\<not> userInteractedRef st \<Longrightarrow> Tabs_updateEffects_from n ds prev_sel sel st = st"
  by (induction ds arbitrary: n) (simp_all add: Tab_updateEffect_not_interacted)

lemma Tabs_updateEffects_from_same:
  "Tabs_updateEffects_from n ds sel sel st = st"
  by (induction ds arbitrary: n) (simp_all add: Tab_updateEffect_def)

lemma Tabs_updateEffects_from_interacted:
  "userInteractedRef st \<Longrightarrow> j < length ds \<Longrightarrow> prev_sel \<noteq> Some (int (n + j)) \<Longrightarrow>
   Tabs_updateEffects_from n ds prev_sel (Some (int (n + j))) st =
     st\<lparr>userInteractedRef := False, focus_calls := focus_calls st @ [element (ds ! j)]\<rparr>"
proof (induction ds arbitrary: n j)
  case Nil
  then show ?case by simp
next
  case (Cons d ds)
  show ?case
  proof (cases j)
    case 0
    have "Tab_updateEffect (int n) (Some (element d)) prev_sel (Some (int n)) st =
          st\<lparr>userInteractedRef := False, focus_calls := focus_calls st @ [element d]\<rparr>"
      using Cons.prems(1,3) 0 by (auto simp: Tab_updateEffect_def Tab_effect_def)
    then show ?thesis
      using 0 by (simp add: Tabs_updateEffects_from_not_interacted)
  next
    case (Suc k)
    have "Tab_updateEffect (int n) (Some (element d)) prev_sel (Some (int (n + j))) st = st"
      using Suc by (simp add: Tab_updateEffect_def Tab_effect_def)
    moreover have "Tabs_updateEffects_from (Suc n) ds prev_sel (Some (int (Suc n + k))) st =
        st\<lparr>userInteractedRef := False, focus_calls := focus_calls st @ [element (ds ! k)]\<rparr>"
      using Cons.IH [of k "Suc n"] Cons.prems Suc by simp
    ultimately show ?thesis using Suc by simp
  qed
qed

lemma string_of_nat_digit: "n < 10 \<Longrightarrow> string_of_nat n = [digit_char n]"
  by (subst string_of_nat.simps) simp

subsection \<open>Claims\<close>

text \<open>
  C1.  On an instance that is not \<open>readOnly\<close> and has an \<open>onChange\<close> handler, a select
  request for index \<open>i\<close> calls \<open>onChange(i)\<close> exactly once: the log of calls grows by
  the one entry \<open>i\<close>.  On an uncontrolled instance the internal selected index, which is
  what the context then reports, is \<open>i\<close> afterwards; on a controlled instance the internal
  selected index is as before and the context keeps reporting the owner's index.  A click
  on the tab with index \<open>i\<close> is this request, and so is a key press for which
  \<open>handleKeyDown\<close> calls \<open>onSelectTab(i)\<close>.
\<close>

theorem C1_select_request:
  assumes "\<not> readOnly props" and "onChange props"
  shows "onChange_calls (onSelectTab props st i) = onChange_calls st @ [i] \<and>
    (\<not> isControlled st \<longrightarrow>
       selectedIndex (onSelectTab props st i) = i \<and>
       context_selectedIndex props (onSelectTab props st i) = Some i) \<and>
    (isControlled st \<longrightarrow>
       selectedIndex (onSelectTab props st i) = selectedIndex st \<and>
       context_selectedIndex props (onSelectTab props st i) = index props) \<and>
    Tab_onSelect props i st = onSelectTab props st i \<and>
    (handleKeyDown ds (context_selectedIndex props st) key = Inr [SelectTab i] \<longrightarrow>
       TabList_keyDown props ds key st = onSelectTab props st i)"
  using assms
  by (simp add: onSelectTab_def context_selectedIndex_def Tab_onSelect_def
      TabList_keyDown_def Let_def)

theorem C1_select_request_witness:
  "(let props = \<lparr>index = None, defaultIndex = None, onChange = True, readOnly = False\<rparr>;
        st = Tabs_mount props :: nat tabs_state;
        ds = [\<lparr>element = 10, disabled = False\<rparr>, \<lparr>element = 11, disabled = False\<rparr>]
    in \<not> readOnly props \<and> onChange props \<and> \<not> isControlled st \<and>
       handleKeyDown ds (context_selectedIndex props st) ''ArrowRight'' = Inr [SelectTab 1] \<and>
       onChange_calls (onSelectTab props st 1) = [1] \<and>
       selectedIndex (onSelectTab props st 1) = 1 \<and>
       context_selectedIndex props (onSelectTab props st 1) = Some 1 \<and>
       TabList_keyDown props ds ''ArrowRight'' st = onSelectTab props st 1) \<and>
   (let props = \<lparr>index = Some 0, defaultIndex = None, onChange = True, readOnly = False\<rparr>;
        st = Tabs_mount props :: nat tabs_state
    in \<not> readOnly props \<and> onChange props \<and> isControlled st \<and>
       onChange_calls (onSelectTab props st 1) = [1] \<and>
       selectedIndex (onSelectTab props st 1) = 0 \<and>
       context_selectedIndex props (onSelectTab props st 1) = Some 0)"
proof -
  let ?p1 = "\<lparr>index = None, defaultIndex = None, onChange = True, readOnly = False\<rparr>"
  let ?p2 = "\<lparr>index = Some 0, defaultIndex = None, onChange = True, readOnly = False\<rparr>"
  let ?ds = "[\<lparr>element = 10 :: nat, disabled = False\<rparr>, \<lparr>element = 11, disabled = False\<rparr>]"
  have key: "handleKeyDown ?ds (context_selectedIndex ?p1 (Tabs_mount ?p1 :: nat tabs_state))
               ''ArrowRight'' = Inr [SelectTab 1]"
    by code_simp
  have a: "\<not> readOnly ?p1" "onChange ?p1" "\<not> readOnly ?p2" "onChange ?p2" by simp_all
  show ?thesis
    using C1_select_request [OF a(1,2), of "Tabs_mount ?p1 :: nat tabs_state" 1 ?ds "''ArrowRight''"]
      C1_select_request [OF a(3,4), of "Tabs_mount ?p2 :: nat tabs_state" 1] key
    by (simp add: Tabs_mount_def Let_def)
qed

lemma focusNodes_empty_iff: "focusNodes ds = [] \<longleftrightarrow> enabled_indices ds = []"
  by (simp add: focusNodes_enabled_indices)

text \<open>
  C6.  On a \<open>readOnly\<close> instance a click on a tab returns the state as it was, and after
  any key press on the tab list the internal selected index, the index the context
  reports, the \<open>userInteracted\<close> flag and the log of \<open>onChange\<close> calls are as before: the
  selection is unchanged and \<open>onChange\<close> is not called.
\<close>

theorem C6_readOnly_frame:
  assumes "readOnly props"
  shows "Tab_onSelect props i st = st \<and>
    selectedIndex (TabList_keyDown props ds key st) = selectedIndex st \<and>
    context_selectedIndex props (TabList_keyDown props ds key st) =
      context_selectedIndex props st \<and>
    userInteractedRef (TabList_keyDown props ds key st) = userInteractedRef st \<and>
    onChange_calls (TabList_keyDown props ds key st) = onChange_calls st"
proof -
  have "Tab_onSelect props i st = st"
    using assms by (simp add: Tab_onSelect_def onSelectTab_readOnly)
  moreover have
    "selectedIndex (TabList_keyDown props ds key st) = selectedIndex st \<and>
     onChange_calls (TabList_keyDown props ds key st) = onChange_calls st \<and>
     userInteractedRef (TabList_keyDown props ds key st) = userInteractedRef st \<and>
     isControlled (TabList_keyDown props ds key st) = isControlled st"
    by (cases "handleKeyDown ds (context_selectedIndex props st) key")
      (simp_all add: TabList_keyDown_def foldl_perform_readOnly_selection [OF assms])
  ultimately show ?thesis
    by (simp add: context_selectedIndex_def)
qed

theorem C6_readOnly_frame_witness:
  "readOnly \<lparr>index = None, defaultIndex = None, onChange = True, readOnly = True\<rparr> \<and>
   handleKeyDown
     [\<lparr>element = 10 :: nat, disabled = False\<rparr>, \<lparr>element = 11, disabled = False\<rparr>]
     (Some 0) ''ArrowRight'' = Inr [SelectTab 1] \<and>
   Tab_onSelect \<lparr>index = None, defaultIndex = None, onChange = True, readOnly = True\<rparr> 1
     (Tabs_mount \<lparr>index = None, defaultIndex = None, onChange = True, readOnly = True\<rparr>
        :: nat tabs_state) =
     Tabs_mount \<lparr>index = None, defaultIndex = None, onChange = True, readOnly = True\<rparr> \<and>
   selectedIndex
     (TabList_keyDown \<lparr>index = None, defaultIndex = None, onChange = True, readOnly = True\<rparr>
        [\<lparr>element = 10 :: nat, disabled = False\<rparr>, \<lparr>element = 11, disabled = False\<rparr>]
        ''ArrowRight''
        (Tabs_mount \<lparr>index = None, defaultIndex = None, onChange = True, readOnly = True\<rparr>))
     = 0 \<and>
   onChange_calls
     (TabList_keyDown \<lparr>index = None, defaultIndex = None, onChange = True, readOnly = True\<rparr>
        [\<lparr>element = 10 :: nat, disabled = False\<rparr>, \<lparr>element = 11, disabled = False\<rparr>]
        ''ArrowRight''
        (Tabs_mount \<lparr>index = None, defaultIndex = None, onChange = True, readOnly = True\<rparr>))
     = []"
proof -
  let ?p = "\<lparr>index = None, defaultIndex = None, onChange = True, readOnly = True\<rparr>"
  let ?ds = "[\<lparr>element = 10 :: nat, disabled = False\<rparr>, \<lparr>element = 11, disabled = False\<rparr>]"
  have ro: "readOnly ?p" by simp
  have key: "handleKeyDown ?ds (Some 0) ''ArrowRight'' = Inr [SelectTab 1]"
    by code_simp
  show ?thesis
    using C6_readOnly_frame [OF ro, of 1 "Tabs_mount ?p :: nat tabs_state" ?ds "''ArrowRight''"] key
    by (simp add: Tabs_mount_def)
qed

text \<open>
  C7.  The claim does not hold of the code.  One enabled tab is registered and the
  selected index is 1, which is no index of the registry: on \<open>ArrowRight\<close> the callback
  \<open>findIndex\<close> runs in \<open>getFocusIndices\<close> reads \<open>descendants[1].element\<close> and throws a
  \<open>TypeError\<close>, which leaves \<open>handleKeyDown\<close>.  The layout effect of \<open>TabList\<close> checks
  \<open>descendants[selectedIndex]\<close> before it reads from it and throws nothing on the same
  registry and index.
\<close>

theorem C7_stale_index_throws:
  "handleKeyDown [\<lparr>element = 10 :: nat, disabled = False\<rparr>] (Some 1) ''ArrowRight''
     = Inl TypeError \<and>
   TabList_layoutEffect
     \<lparr>index = None, defaultIndex = Some 1, onChange = True, readOnly = False\<rparr>
     [\<lparr>element = 10 :: nat, disabled = False\<rparr>]
     (Tabs_mount \<lparr>index = None, defaultIndex = Some 1, onChange = True, readOnly = False\<rparr>)
     = Inr (Tabs_mount \<lparr>index = None, defaultIndex = Some 1, onChange = True, readOnly = False\<rparr>)"
  by code_simp

text \<open>
  C5, as stated, does not hold of the code.  The only registered tab is disabled:
  \<open>getFocusIndices\<close> returns \<open>-1\<close> four times and \<open>handleKeyDown\<close> passes it on, so on
  \<open>ArrowRight\<close> the call \<open>onSelectTab(-1)\<close> is made, the owner's \<open>onChange\<close> is called
  with \<open>-1\<close> and the uncontrolled instance selects \<open>-1\<close>.
\<close>

theorem C5_no_enabled_counterexample:
  "enabled_indices [\<lparr>element = 10 :: nat, disabled = True\<rparr>] = [] \<and>
   handleKeyDown [\<lparr>element = 10 :: nat, disabled = True\<rparr>] (Some 0) ''ArrowRight''
     = Inr [SelectTab (- 1)] \<and>
   onChange_calls
     (TabList_keyDown \<lparr>index = None, defaultIndex = None, onChange = True, readOnly = False\<rparr>
        [\<lparr>element = 10 :: nat, disabled = True\<rparr>] ''ArrowRight''
        (Tabs_mount \<lparr>index = None, defaultIndex = None, onChange = True, readOnly = False\<rparr>))
     = [- 1] \<and>
   selectedIndex
     (TabList_keyDown \<lparr>index = None, defaultIndex = None, onChange = True, readOnly = False\<rparr>
        [\<lparr>element = 10 :: nat, disabled = True\<rparr>] ''ArrowRight''
        (Tabs_mount \<lparr>index = None, defaultIndex = None, onChange = True, readOnly = False\<rparr>))
     = - 1"
  by code_simp

text \<open>
  C5, amended.  When the registry has no enabled tab, no key press raises an error,
  whatever the selected index is.  \<open>ArrowDown\<close> makes no select request (it prevents the
  default and asks for the panel focus), and a key that is no navigation key does nothing;
  \<open>ArrowRight\<close>, \<open>ArrowLeft\<close>, \<open>Home\<close> and \<open>End\<close> each make the one select request
  \<open>onSelectTab(-1)\<close>.
\<close>

theorem C5_no_enabled_amended:
  assumes "enabled_indices ds = []"
  shows "handleKeyDown ds sel key =
    Inr (if key = ''ArrowRight'' \<or> key = ''ArrowLeft'' \<or> key = ''Home'' \<or> key = ''End''
         then [SelectTab (- 1)]
         else if key = ''ArrowDown'' then [PreventDefault, FocusPanel]
         else [])"
proof -
  have "focusNodes ds = []" using assms by (simp add: focusNodes_empty_iff)
  then show ?thesis
    by (simp add: handleKeyDown_def is_navigation_key_def getFocusIndices_none_enabled)
qed

theorem C5_no_enabled_amended_witness:
  "enabled_indices [\<lparr>element = 10 :: nat, disabled = True\<rparr>, \<lparr>element = 11, disabled = True\<rparr>]
     = [] \<and>
   handleKeyDown [\<lparr>element = 10 :: nat, disabled = True\<rparr>, \<lparr>element = 11, disabled = True\<rparr>]
     (Some 7) ''Home'' = Inr [SelectTab (- 1)] \<and>
   handleKeyDown [\<lparr>element = 10 :: nat, disabled = True\<rparr>, \<lparr>element = 11, disabled = True\<rparr>]
     (Some 0) ''ArrowDown'' = Inr [PreventDefault, FocusPanel]"
proof -
  let ?ds = "[\<lparr>element = 10 :: nat, disabled = True\<rparr>, \<lparr>element = 11, disabled = True\<rparr>]"
  have e: "enabled_indices ?ds = []" by code_simp
  show ?thesis
    using C5_no_enabled_amended [OF e, of "Some 7" "''Home''"]
      C5_no_enabled_amended [OF e, of "Some 0" "''ArrowDown''"] e
    by simp
qed

text \<open>
  \<open>ArrowDown\<close> and the keys that are no navigation keys, whenever \<open>getFocusIndices\<close>
  returns: the selected index is the index of a registered tab, or no tab is enabled.
  \<open>ArrowDown\<close> then calls \<open>event.preventDefault()\<close> and \<open>onFocusPanel()\<close> and makes
  no select request; the state afterwards has one more \<open>focus()\<close> call, on the element
  in \<open>selectedPanelRef\<close>, or is as before when that ref is empty.  A key other than the
  five navigation keys returns before any call.
\<close>

lemma handleKeyDown_ArrowDown:
  "(js_index ds sel \<noteq> None \<or> enabled_indices ds = [] \<longrightarrow>
      handleKeyDown ds sel ''ArrowDown'' = Inr [PreventDefault, FocusPanel]) \<and>
   (js_index ds (context_selectedIndex props st) \<noteq> None \<or> enabled_indices ds = [] \<longrightarrow>
      TabList_keyDown props ds ''ArrowDown'' st =
        (case selectedPanelRef st of
           None \<Rightarrow> st
         | Some panel \<Rightarrow> st\<lparr>focus_calls := focus_calls st @ [panel]\<rparr>)) \<and>
   (key \<noteq> ''ArrowLeft'' \<and> key \<noteq> ''ArrowRight'' \<and> key \<noteq> ''ArrowDown'' \<and>
    key \<noteq> ''Home'' \<and> key \<noteq> ''End'' \<longrightarrow>
      handleKeyDown ds sel key = Inr [] \<and> TabList_keyDown props ds key st = st)"
proof -
  have down: "handleKeyDown ds s ''ArrowDown'' = Inr [PreventDefault, FocusPanel]"
    if "js_index ds s \<noteq> None \<or> enabled_indices ds = []" for s
  proof -
    from that have "\<exists>fi. getFocusIndices ds s = Inr fi"
      using getFocusIndices_registered [of ds s]
        getFocusIndices_none_enabled [of ds s] focusNodes_empty_iff [of ds]
      by auto
    then show ?thesis
      by (auto simp: handleKeyDown_def is_navigation_key_def)
  qed
  have other: "handleKeyDown ds s key = Inr []"
    if "key \<noteq> ''ArrowLeft'' \<and> key \<noteq> ''ArrowRight'' \<and> key \<noteq> ''ArrowDown'' \<and>
        key \<noteq> ''Home'' \<and> key \<noteq> ''End''" for s
    using that by (simp add: handleKeyDown_def is_navigation_key_def)
  show ?thesis
    using down other by (simp add: TabList_keyDown_def onFocusPanel_def)
qed

text \<open>
  C9.  The claim does not hold of the code for every \<open>ArrowDown\<close> key press.
  \<open>handleKeyDown\<close> calls \<open>getFocusIndices()\<close> before its \<open>switch\<close>, for \<open>ArrowDown\<close> as
  for the other navigation keys.  With one enabled tab registered and the selected index
  1, the callback of \<open>findIndex\<close> reads \<open>descendants[1].element\<close> and throws: the handler
  is left with a \<open>TypeError\<close> before \<open>event.preventDefault()\<close> and \<open>onFocusPanel()\<close>, and
  no \<open>focus()\<close> is called although a panel element is in \<open>selectedPanelRef\<close>.  On the same
  registry with the selected index 0 the two calls are made and the panel is focused.
\<close>

theorem C9_arrow_down_stale_index_throws:
  "handleKeyDown [\<lparr>element = 10 :: nat, disabled = False\<rparr>] (Some 1) ''ArrowDown''
     = Inl TypeError \<and>
   focus_calls
     (TabList_keyDown \<lparr>index = Some 1, defaultIndex = None, onChange = True, readOnly = False\<rparr>
        [\<lparr>element = 10 :: nat, disabled = False\<rparr>] ''ArrowDown''
        \<lparr>isControlled = True, userInteractedRef = False, selectedPanelRef = Some 20,
         selectedIndex = 0, onChange_calls = [], focus_calls = []\<rparr>)
     = [] \<and>
   handleKeyDown [\<lparr>element = 10 :: nat, disabled = False\<rparr>] (Some 0) ''ArrowDown''
     = Inr [PreventDefault, FocusPanel] \<and>
   focus_calls
     (TabList_keyDown \<lparr>index = Some 0, defaultIndex = None, onChange = True, readOnly = False\<rparr>
        [\<lparr>element = 10 :: nat, disabled = False\<rparr>] ''ArrowDown''
        \<lparr>isControlled = True, userInteractedRef = False, selectedPanelRef = Some 20,
         selectedIndex = 0, onChange_calls = [], focus_calls = []\<rparr>)
     = [20]"
  by code_simp

lemma next_enabled_some:
  "enabled_indices ds \<noteq> [] \<Longrightarrow> \<exists>n. next_enabled ds cur = Some n"
  by (cases "enabled_indices ds")
    (auto simp: next_enabled_def first_enabled_def split: list.splits)

lemma prev_enabled_some:
  "enabled_indices ds \<noteq> [] \<Longrightarrow> \<exists>p. prev_enabled ds cur = Some p"
  by (cases "enabled_indices ds" rule: rev_cases)
    (auto simp: prev_enabled_def last_enabled_def split: list.splits)

text \<open>
  C2, as stated, does not hold of the code for every selected index.  Four tabs are
  registered, the second one disabled, and the selected index is 1, the disabled tab (a
  controlled instance is not corrected).  The enabled tab right after it has raw index 2
  and the one right before it raw index 0, but \<open>findIndex\<close> does not find the selected
  element among the focus nodes, so \<open>ArrowRight\<close> requests 0, the first enabled tab, and
  \<open>ArrowLeft\<close> requests 3, the last one.  With the selected index 4, no index of
  the registry, the key press throws.
\<close>

theorem C2_keyboard_wrap_around_counterexample:
  "next_enabled
     [\<lparr>element = 10 :: nat, disabled = False\<rparr>, \<lparr>element = 11, disabled = True\<rparr>,
      \<lparr>element = 12, disabled = False\<rparr>, \<lparr>element = 13, disabled = False\<rparr>] 1 = Some 2 \<and>
   handleKeyDown
     [\<lparr>element = 10 :: nat, disabled = False\<rparr>, \<lparr>element = 11, disabled = True\<rparr>,
      \<lparr>element = 12, disabled = False\<rparr>, \<lparr>element = 13, disabled = False\<rparr>]
     (Some 1) ''ArrowRight'' = Inr [SelectTab 0] \<and>
   prev_enabled
     [\<lparr>element = 10 :: nat, disabled = False\<rparr>, \<lparr>element = 11, disabled = True\<rparr>,
      \<lparr>element = 12, disabled = False\<rparr>, \<lparr>element = 13, disabled = False\<rparr>] 1 = Some 0 \<and>
   handleKeyDown
     [\<lparr>element = 10 :: nat, disabled = False\<rparr>, \<lparr>element = 11, disabled = True\<rparr>,
      \<lparr>element = 12, disabled = False\<rparr>, \<lparr>element = 13, disabled = False\<rparr>]
     (Some 1) ''ArrowLeft'' = Inr [SelectTab 3] \<and>
   handleKeyDown
     [\<lparr>element = 10 :: nat, disabled = False\<rparr>, \<lparr>element = 11, disabled = True\<rparr>,
      \<lparr>element = 12, disabled = False\<rparr>, \<lparr>element = 13, disabled = False\<rparr>]
     (Some 4) ''ArrowRight'' = Inl TypeError"
  by code_simp

text \<open>
  C2, amended.  The registry holds each element once and the selected index is the index
  of a registered tab.  If that tab is enabled, \<open>ArrowRight\<close> requests the raw index of
  the first enabled tab after it, and the first enabled tab of all when none follows;
  \<open>ArrowLeft\<close> requests the raw index of the last enabled tab before it, and the last
  enabled tab of all when none precedes.  If that tab is disabled, \<open>ArrowRight\<close> requests
  the first enabled tab of all and \<open>ArrowLeft\<close> the last enabled tab of all, wherever the
  selected tab stands (\<open>-1\<close>, the code's "none", when no tab is enabled).
\<close>

theorem C2_keyboard_wrap_around_amended:
  assumes "distinct (map element ds)" and "cur < length ds"
  shows "(\<not> disabled (ds ! cur) \<longrightarrow>
      (\<exists>n p. next_enabled ds cur = Some n \<and> prev_enabled ds cur = Some p \<and>
         handleKeyDown ds (Some (int cur)) ''ArrowRight'' = Inr [SelectTab (int n)] \<and>
         handleKeyDown ds (Some (int cur)) ''ArrowLeft'' = Inr [SelectTab (int p)])) \<and>
    (disabled (ds ! cur) \<longrightarrow>
       handleKeyDown ds (Some (int cur)) ''ArrowRight'' =
         Inr [SelectTab (target_index (first_enabled ds))] \<and>
       handleKeyDown ds (Some (int cur)) ''ArrowLeft'' =
         Inr [SelectTab (target_index (last_enabled ds))])"
proof (cases "disabled (ds ! cur)")
  case True
  then show ?thesis
    by (simp add: handleKeyDown_def is_navigation_key_def
        getFocusIndices_disabled [OF assms True])
next
  case False
  have "enabled_indices ds \<noteq> []"
    using assms(2) False enabled_indices_mem [of cur ds] by auto
  then obtain n p where n: "next_enabled ds cur = Some n" and p: "prev_enabled ds cur = Some p"
    using next_enabled_some prev_enabled_some by blast
  have "handleKeyDown ds (Some (int cur)) ''ArrowRight'' = Inr [SelectTab (int n)]"
    by (simp add: handleKeyDown_def is_navigation_key_def
        getFocusIndices_enabled [OF assms False] n target_index_def)
  moreover have "handleKeyDown ds (Some (int cur)) ''ArrowLeft'' = Inr [SelectTab (int p)]"
    by (simp add: handleKeyDown_def is_navigation_key_def
        getFocusIndices_enabled [OF assms False] p target_index_def)
  ultimately show ?thesis using n p False by blast
qed

theorem C2_keyboard_wrap_around_amended_witness:
  "distinct (map element
     [\<lparr>element = 10 :: nat, disabled = False\<rparr>, \<lparr>element = 11, disabled = True\<rparr>,
      \<lparr>element = 12, disabled = False\<rparr>, \<lparr>element = 13, disabled = False\<rparr>]) \<and>
   enabled_indices
     [\<lparr>element = 10 :: nat, disabled = False\<rparr>, \<lparr>element = 11, disabled = True\<rparr>,
      \<lparr>element = 12, disabled = False\<rparr>, \<lparr>element = 13, disabled = False\<rparr>] = [0, 2, 3] \<and>
   handleKeyDown
     [\<lparr>element = 10 :: nat, disabled = False\<rparr>, \<lparr>element = 11, disabled = True\<rparr>,
      \<lparr>element = 12, disabled = False\<rparr>, \<lparr>element = 13, disabled = False\<rparr>]
     (Some 0) ''ArrowRight'' = Inr [SelectTab 2] \<and>
   handleKeyDown
     [\<lparr>element = 10 :: nat, disabled = False\<rparr>, \<lparr>element = 11, disabled = True\<rparr>,
      \<lparr>element = 12, disabled = False\<rparr>, \<lparr>element = 13, disabled = False\<rparr>]
     (Some 3) ''ArrowRight'' = Inr [SelectTab 0] \<and>
   handleKeyDown
     [\<lparr>element = 10 :: nat, disabled = False\<rparr>, \<lparr>element = 11, disabled = True\<rparr>,
      \<lparr>element = 12, disabled = False\<rparr>, \<lparr>element = 13, disabled = False\<rparr>]
     (Some 0) ''ArrowLeft'' = Inr [SelectTab 3] \<and>
   disabled
     ([\<lparr>element = 10 :: nat, disabled = False\<rparr>, \<lparr>element = 11, disabled = True\<rparr>,
       \<lparr>element = 12, disabled = False\<rparr>, \<lparr>element = 13, disabled = False\<rparr>] ! 1) \<and>
   handleKeyDown
     [\<lparr>element = 10 :: nat, disabled = False\<rparr>, \<lparr>element = 11, disabled = True\<rparr>,
      \<lparr>element = 12, disabled = False\<rparr>, \<lparr>element = 13, disabled = False\<rparr>]
     (Some 1) ''ArrowRight'' = Inr [SelectTab 0] \<and>
   handleKeyDown
     [\<lparr>element = 10 :: nat, disabled = False\<rparr>, \<lparr>element = 11, disabled = True\<rparr>,
      \<lparr>element = 12, disabled = False\<rparr>, \<lparr>element = 13, disabled = False\<rparr>]
     (Some 1) ''ArrowLeft'' = Inr [SelectTab 3]"
proof -
  let ?ds = "[\<lparr>element = 10 :: nat, disabled = False\<rparr>, \<lparr>element = 11, disabled = True\<rparr>,
              \<lparr>element = 12, disabled = False\<rparr>, \<lparr>element = 13, disabled = False\<rparr>]"
  have d: "distinct (map element ?ds)" by simp
  have en: "enabled_indices ?ds = [0, 2, 3]" by code_simp
  have l0: "0 < length ?ds" and l1: "1 < length ?ds" and l3: "3 < length ?ds" by simp_all
  have e0: "\<not> disabled (?ds ! 0)" and e1: "disabled (?ds ! 1)" and e3: "\<not> disabled (?ds ! 3)"
    by simp_all
  have n0: "next_enabled ?ds 0 = Some 2" and p0: "prev_enabled ?ds 0 = Some 3"
    and n3: "next_enabled ?ds 3 = Some 0"
    and f: "first_enabled ?ds = Some 0" and l: "last_enabled ?ds = Some 3"
    by (simp_all add: next_enabled_def prev_enabled_def first_enabled_def last_enabled_def en)
  have r0: "handleKeyDown ?ds (Some 0) ''ArrowRight'' = Inr [SelectTab 2] \<and>
            handleKeyDown ?ds (Some 0) ''ArrowLeft'' = Inr [SelectTab 3]"
    using C2_keyboard_wrap_around_amended [OF d l0] e0 n0 p0 by auto
  have r3: "handleKeyDown ?ds (Some 3) ''ArrowRight'' = Inr [SelectTab 0]"
    using C2_keyboard_wrap_around_amended [OF d l3] e3 n3 by auto
  have r1: "handleKeyDown ?ds (Some 1) ''ArrowRight'' = Inr [SelectTab 0] \<and>
            handleKeyDown ?ds (Some 1) ''ArrowLeft'' = Inr [SelectTab 3]"
    using C2_keyboard_wrap_around_amended [OF d l1] e1 f l by (simp add: target_index_def)
  show ?thesis
    using d en r0 r3 r1 e1 by simp
qed

text \<open>
  The layout effect on an uncontrolled instance whose selected index is the index of a
  registered, disabled tab (the registry holding each element once): it sets the selected
  index to the \<open>next\<close> of \<open>getFocusIndices\<close>, which is the raw index of the first
  enabled tab of the registry (\<open>-1\<close> when no tab is enabled), and changes nothing else:
  it does not set the \<open>userInteracted\<close> flag and calls no \<open>focus()\<close>.  In the update
  effects of the tabs that follow, no \<open>focus()\<close> is called when the flag is not set.
\<close>

lemma TabList_layoutEffect_disabled:
  assumes "distinct (map element ds)" and "\<not> isControlled st"
    and "selectedIndex st = int cur" and "cur < length ds" and "disabled (ds ! cur)"
  shows "\<exists>fi. getFocusIndices ds (Some (int cur)) = Inr fi \<and>
    nextIndex fi = target_index (first_enabled ds) \<and>
    TabList_layoutEffect props ds st = Inr (st\<lparr>selectedIndex := nextIndex fi\<rparr>) \<and>
    (\<not> userInteractedRef st \<longrightarrow>
       Tabs_updateEffects ds (Some (int cur)) (Some (nextIndex fi))
         (st\<lparr>selectedIndex := nextIndex fi\<rparr>) = st\<lparr>selectedIndex := nextIndex fi\<rparr>)"
proof -
  let ?fi = "\<lparr>firstIndex = target_index (first_enabled ds),
              lastIndex = target_index (last_enabled ds),
              prevIndex = target_index (last_enabled ds),
              nextIndex = target_index (first_enabled ds)\<rparr>"
  have g: "getFocusIndices ds (Some (int cur)) = Inr ?fi"
    by (rule getFocusIndices_disabled [OF assms(1,4,5)])
  have sel: "context_selectedIndex props st = Some (int cur)"
    using assms(2,3) by (simp add: context_selectedIndex_def)
  have d: "js_index ds (Some (int cur)) = Some (ds ! cur)"
    using assms(4) by (simp add: js_index_def js_nth_def)
  have "TabList_layoutEffect props ds st = Inr (st\<lparr>selectedIndex := nextIndex ?fi\<rparr>)"
    using assms(2,5) by (simp add: TabList_layoutEffect_def sel d g context_setSelectedIndex_def)
  moreover have "\<not> userInteractedRef st \<longrightarrow>
       Tabs_updateEffects ds (Some (int cur)) (Some (nextIndex ?fi))
         (st\<lparr>selectedIndex := nextIndex ?fi\<rparr>) = st\<lparr>selectedIndex := nextIndex ?fi\<rparr>"
    by (simp add: Tabs_updateEffects_def Tabs_updateEffects_from_not_interacted)
  ultimately show ?thesis using g by simp
qed


text \<open>
  C4.  The selection changes to the index \<open>j\<close> of a registered tab, from a previous
  selection that was not \<open>j\<close>.  If the \<open>userInteracted\<close> flag is set, the update effects
  of the tabs call \<open>focus()\<close> once, on the element of tab \<open>j\<close>, and clear the flag, and
  change nothing else.  If the flag is not set, as after a new controlled index without a
  user request before it, the update effects leave the state as it is, whatever the new
  selection: no \<open>focus()\<close> is called.
\<close>

theorem C4_focus_follows_user_selection:
  assumes "j < length ds" and "prev_sel \<noteq> Some (int j)"
  shows "(userInteractedRef st \<longrightarrow>
      Tabs_updateEffects ds prev_sel (Some (int j)) st =
        st\<lparr>userInteractedRef := False, focus_calls := focus_calls st @ [element (ds ! j)]\<rparr>) \<and>
    (\<not> userInteractedRef st \<longrightarrow> Tabs_updateEffects ds prev_sel sel st = st)"
  using assms Tabs_updateEffects_from_interacted [of st j ds prev_sel 0]
  by (simp add: Tabs_updateEffects_def Tabs_updateEffects_from_not_interacted)

theorem C4_focus_follows_user_selection_witness:
  "(1 :: nat) < length [\<lparr>element = 10 :: nat, disabled = False\<rparr>, \<lparr>element = 11, disabled = False\<rparr>] \<and>
   Some (0 :: int) \<noteq> Some (int 1) \<and>
   userInteractedRef
     (Tab_onSelect \<lparr>index = None, defaultIndex = None, onChange = True, readOnly = False\<rparr> 1
        (Tabs_mount \<lparr>index = None, defaultIndex = None, onChange = True, readOnly = False\<rparr>
           :: nat tabs_state)) \<and>
   Tabs_updateEffects
     [\<lparr>element = 10 :: nat, disabled = False\<rparr>, \<lparr>element = 11, disabled = False\<rparr>]
     (Some 0) (Some 1)
     (Tab_onSelect \<lparr>index = None, defaultIndex = None, onChange = True, readOnly = False\<rparr> 1
        (Tabs_mount \<lparr>index = None, defaultIndex = None, onChange = True, readOnly = False\<rparr>))
   = \<lparr>isControlled = False, userInteractedRef = False, selectedPanelRef = None,
      selectedIndex = 1, onChange_calls = [1], focus_calls = [11]\<rparr> \<and>
   \<not> userInteractedRef
     (Tabs_mount \<lparr>index = Some 0, defaultIndex = None, onChange = True, readOnly = False\<rparr>
        :: nat tabs_state) \<and>
   Tabs_updateEffects
     [\<lparr>element = 10 :: nat, disabled = False\<rparr>, \<lparr>element = 11, disabled = False\<rparr>]
     (Some 0) (Some 1)
     (Tabs_mount \<lparr>index = Some 0, defaultIndex = None, onChange = True, readOnly = False\<rparr>)
   = Tabs_mount \<lparr>index = Some 0, defaultIndex = None, onChange = True, readOnly = False\<rparr>"
proof -
  let ?ds = "[\<lparr>element = 10 :: nat, disabled = False\<rparr>, \<lparr>element = 11, disabled = False\<rparr>]"
  let ?p = "\<lparr>index = None, defaultIndex = None, onChange = True, readOnly = False\<rparr>"
  let ?q = "\<lparr>index = Some 0, defaultIndex = None, onChange = True, readOnly = False\<rparr>"
  have a: "1 < length ?ds" "Some (0 :: int) \<noteq> Some (int 1)" by simp_all
  show ?thesis
    using C4_focus_follows_user_selection
        [OF a, of "Tab_onSelect ?p 1 (Tabs_mount ?p :: nat tabs_state)"]
      C4_focus_follows_user_selection [OF a, of "Tabs_mount ?q :: nat tabs_state" "Some 1"]
    by (simp add: Tab_onSelect_def onSelectTab_def Tabs_mount_def)
qed

text \<open>
  C10.  On an instance that is not \<open>readOnly\<close>, a select request for the index \<open>i\<close> that
  is selected already leaves the selection at \<open>i\<close> and sets the \<open>userInteracted\<close> flag.
  No tab's \<open>isSelected\<close> has changed, so the update effects do nothing: no \<open>focus()\<close> is
  called and the flag stays set.  When the selection then changes to the index \<open>j\<close> of
  another registered tab, by whatever cause, the update effects call \<open>focus()\<close> on the
  element of tab \<open>j\<close> and clear the flag; on a controlled instance a new \<open>index\<close> prop
  \<open>j\<close> from the owner is such a change.
\<close>

theorem C10_flag_survives_reselect:
  assumes "\<not> readOnly props" and "context_selectedIndex props st = Some i"
  shows "context_selectedIndex props (onSelectTab props st i) = Some i \<and>
    userInteractedRef (onSelectTab props st i) \<and>
    focus_calls (onSelectTab props st i) = focus_calls st \<and>
    Tabs_updateEffects ds (Some i) (context_selectedIndex props (onSelectTab props st i))
      (onSelectTab props st i) = onSelectTab props st i \<and>
    (j < length ds \<and> int j \<noteq> i \<longrightarrow>
       Tabs_updateEffects ds (Some i) (Some (int j)) (onSelectTab props st i) =
         (onSelectTab props st i)
           \<lparr>userInteractedRef := False,
            focus_calls := focus_calls st @ [element (ds ! j)]\<rparr>) \<and>
    (isControlled st \<longrightarrow>
       context_selectedIndex (props\<lparr>index := Some (int j)\<rparr>) (onSelectTab props st i) =
         Some (int j))"
proof -
  let ?st = "onSelectTab props st i"
  have sel: "context_selectedIndex props ?st = Some i"
    using assms by (auto simp: onSelectTab_def context_selectedIndex_def Let_def)
  have flag: "userInteractedRef ?st"
    using assms(1) by (simp add: onSelectTab_def Let_def)
  have foc: "focus_calls ?st = focus_calls st"
    by (simp add: onSelectTab_def Let_def)
  have same: "Tabs_updateEffects ds (Some i) (context_selectedIndex props ?st) ?st = ?st"
    by (simp add: sel Tabs_updateEffects_def Tabs_updateEffects_from_same)
  have move: "Tabs_updateEffects ds (Some i) (Some (int j)) ?st =
      ?st\<lparr>userInteractedRef := False, focus_calls := focus_calls st @ [element (ds ! j)]\<rparr>"
    if "j < length ds" "int j \<noteq> i"
    using Tabs_updateEffects_from_interacted [OF flag that(1), of "Some i" 0] that(2)
    by (simp add: Tabs_updateEffects_def foc)
  have ctl: "context_selectedIndex (props\<lparr>index := Some (int j)\<rparr>) ?st = Some (int j)"
    if "isControlled st"
    using that by (simp add: context_selectedIndex_def onSelectTab_def Let_def)
  show ?thesis
    using sel flag foc same move ctl by simp
qed

theorem C10_flag_survives_reselect_witness:
  "\<not> readOnly \<lparr>index = Some 0, defaultIndex = None, onChange = True, readOnly = False\<rparr> \<and>
   context_selectedIndex
     \<lparr>index = Some 0, defaultIndex = None, onChange = True, readOnly = False\<rparr>
     (Tabs_mount \<lparr>index = Some 0, defaultIndex = None, onChange = True, readOnly = False\<rparr>
        :: nat tabs_state) = Some 0 \<and>
   onSelectTab \<lparr>index = Some 0, defaultIndex = None, onChange = True, readOnly = False\<rparr>
     (Tabs_mount \<lparr>index = Some 0, defaultIndex = None, onChange = True, readOnly = False\<rparr>) 0
   = \<lparr>isControlled = True, userInteractedRef = True, selectedPanelRef = None,
      selectedIndex = 0, onChange_calls = [0], focus_calls = [] :: nat list\<rparr> \<and>
   Tabs_updateEffects
     [\<lparr>element = 10 :: nat, disabled = False\<rparr>, \<lparr>element = 11, disabled = False\<rparr>]
     (Some 0) (Some 0)
     \<lparr>isControlled = True, userInteractedRef = True, selectedPanelRef = None,
      selectedIndex = 0, onChange_calls = [0], focus_calls = []\<rparr>
   = \<lparr>isControlled = True, userInteractedRef = True, selectedPanelRef = None,
      selectedIndex = 0, onChange_calls = [0], focus_calls = []\<rparr> \<and>
   (1 :: nat) < length [\<lparr>element = 10 :: nat, disabled = False\<rparr>, \<lparr>element = 11, disabled = False\<rparr>] \<and>
   int 1 \<noteq> 0 \<and>
   Tabs_updateEffects
     [\<lparr>element = 10 :: nat, disabled = False\<rparr>, \<lparr>element = 11, disabled = False\<rparr>]
     (Some 0)
     (context_selectedIndex
        \<lparr>index = Some 1, defaultIndex = None, onChange = True, readOnly = False\<rparr>
        \<lparr>isControlled = True, userInteractedRef = True, selectedPanelRef = None,
         selectedIndex = 0, onChange_calls = [0], focus_calls = [] :: nat list\<rparr>)
     \<lparr>isControlled = True, userInteractedRef = True, selectedPanelRef = None,
      selectedIndex = 0, onChange_calls = [0], focus_calls = []\<rparr>
   = \<lparr>isControlled = True, userInteractedRef = False, selectedPanelRef = None,
      selectedIndex = 0, onChange_calls = [0], focus_calls = [11]\<rparr>"
proof -
  let ?p = "\<lparr>index = Some 0, defaultIndex = None, onChange = True, readOnly = False\<rparr>"
  let ?st = "Tabs_mount ?p :: nat tabs_state"
  let ?ds = "[\<lparr>element = 10 :: nat, disabled = False\<rparr>, \<lparr>element = 11, disabled = False\<rparr>]"
  have a: "\<not> readOnly ?p" "context_selectedIndex ?p ?st = Some 0"
    by (simp_all add: context_selectedIndex_def Tabs_mount_def)
  have s: "onSelectTab ?p ?st 0 =
      \<lparr>isControlled = True, userInteractedRef = True, selectedPanelRef = None,
       selectedIndex = 0, onChange_calls = [0], focus_calls = []\<rparr>"
    by (simp add: onSelectTab_def Tabs_mount_def)
  show ?thesis
    using C10_flag_survives_reselect [OF a, of ?ds 1] a
    by (simp add: s context_selectedIndex_def)
qed

text \<open>
  C8.  For every group id \<open>g\<close>, index \<open>i\<close> and selection: the id of the tab is \<open>g\<close>,
  \<open>-tab-\<close> and the index in decimal; the id of the panel is \<open>g\<close>, \<open>-panel-\<close> and the
  index; \<open>aria-controls\<close> of the tab is the id of the panel of the same index and
  \<open>aria-labelledby\<close> of the panel is the id of the tab of the same index; \<open>tabIndex\<close> of
  the tab is \<open>0\<close> when its index is the selected one and \<open>-1\<close> otherwise, and
  \<open>aria-selected\<close> says the same; the panel is \<open>hidden\<close> exactly when its index is not
  the selected one.  For the group id \<open>tabs-1\<close> and three tabs the ids are
  \<open>tabs-1-tab-0\<close> to \<open>tabs-1-tab-2\<close> and \<open>tabs-1-panel-0\<close> to \<open>tabs-1-panel-2\<close>.
\<close>

theorem C8_ids_and_attributes:
  "tab_id (Tab_attributes g i sel) = g @ ''-tab-'' @ string_of_int i \<and>
   panel_id (TabPanel_attributes g i sel) = g @ ''-panel-'' @ string_of_int i \<and>
   tab_aria_controls (Tab_attributes g i sel) = panel_id (TabPanel_attributes g i sel) \<and>
   panel_aria_labelledby (TabPanel_attributes g i sel) = tab_id (Tab_attributes g i sel) \<and>
   tab_tabIndex (Tab_attributes g i sel) = (if sel = Some i then 0 else - 1) \<and>
   tab_aria_selected (Tab_attributes g i sel) = (sel = Some i) \<and>
   panel_hidden (TabPanel_attributes g i sel) = (sel \<noteq> Some i) \<and>
   map (\<lambda>k. tab_id (Tab_attributes ''tabs-1'' k sel)) [0, 1, 2] =
     [''tabs-1-tab-0'', ''tabs-1-tab-1'', ''tabs-1-tab-2''] \<and>
   map (\<lambda>k. panel_id (TabPanel_attributes ''tabs-1'' k sel)) [0, 1, 2] =
     [''tabs-1-panel-0'', ''tabs-1-panel-1'', ''tabs-1-panel-2'']"
proof -
  have "string_of_int 0 = ''0''" "string_of_int 1 = ''1''" "string_of_int 2 = ''2''"
    by (simp_all add: string_of_int_def string_of_nat_digit digit_char_def)
  then show ?thesis
    by (auto simp: Tab_attributes_def TabPanel_attributes_def makeId_def)
qed

end
